theory Spec2Isabelle
  imports Main "HOL-Library.AList"
begin

section \<open>Module snapshots\<close>

text \<open>
  The source keeps the modules that are sent to the execution target in a plain
  JavaScript object, \<^verbatim>\<open>IModulesByPath\<close>, whose keys are paths and whose values are
  \<^verbatim>\<open>{ path: string; code: null | string; isBinary?: boolean }\<close>.

  \<^item> An entry is a record. \<^verbatim>\<open>code\<close> is \<open>None\<close> for \<^verbatim>\<open>null\<close>; the optional
    \<^verbatim>\<open>isBinary\<close> is \<open>None\<close> when the property is \<^verbatim>\<open>undefined\<close>.
  \<^item> The object is an association list in insertion order, which is the order in which
    \<^verbatim>\<open>Object.keys\<close> enumerates keys that are not array indices (a path is none). \<^verbatim>\<open>o[p]\<close> is \<open>map_of o p\<close> and the
    assignment \<^verbatim>\<open>o[p] = v\<close> is \<open>AList.update p v o\<close>: an existing key keeps its place,
    a new key goes to the end.
  \<^item> Every value stored in such an object is an object, hence truthy: the tests
    \<^verbatim>\<open>if (a[p])\<close> and \<^verbatim>\<open>!b[p]\<close> of the source ask whether the key is present. Paths are
    absolute (they start with a slash), so no key is a property inherited from
    \<^verbatim>\<open>Object.prototype\<close>.
\<close>

record IModule =
  path :: string
  code :: "string option"
  isBinary :: "bool option"

type_synonym IModulesByPath = "(string \<times> IModule) list"

definition Object_keys :: "(string \<times> 'v) list \<Rightarrow> string list" where
  "Object_keys obj = map fst obj"

subsection \<open>getDiff\<close>

text \<open>
  The predicate of the \<^verbatim>\<open>filter\<close> call of \<^verbatim>\<open>getDiff\<close>. The path \<open>p\<close> ranges over the
  keys of \<open>b\<close>, so \<^verbatim>\<open>b[p]\<close> is always defined there; the branch for a missing
  \<^verbatim>\<open>b[p]\<close> (where JavaScript would raise a TypeError) cannot be reached from
  \<open>getDiff\<close> and keeps nothing.
\<close>

definition getDiff_filter :: "IModulesByPath \<Rightarrow> IModulesByPath \<Rightarrow> string \<Rightarrow> bool" where
  "getDiff_filter a b p =
     (case map_of b p of
        None \<Rightarrow> False
      | Some bp \<Rightarrow>
          (case map_of a p of
             Some ap \<Rightarrow> (if code ap \<noteq> code bp then True else False)
           | None \<Rightarrow> True))"

text \<open>The body of the first \<^verbatim>\<open>forEach\<close>: \<^verbatim>\<open>diff[p] = { code: b[p].code, path: p, isBinary: b[p].isBinary }\<close>.\<close>

definition getDiff_put :: "IModulesByPath \<Rightarrow> string \<Rightarrow> IModulesByPath \<Rightarrow> IModulesByPath" where
  "getDiff_put b p diff =
     (case map_of b p of
        None \<Rightarrow> diff
      | Some bp \<Rightarrow> AList.update p \<lparr> path = p, code = code bp, isBinary = isBinary bp \<rparr> diff)"

text \<open>The body of the second \<^verbatim>\<open>forEach\<close>: \<^verbatim>\<open>if (!b[p]) diff[p] = { path: p, code: null }\<close>.\<close>

definition getDiff_tombstone :: "IModulesByPath \<Rightarrow> string \<Rightarrow> IModulesByPath \<Rightarrow> IModulesByPath" where
  "getDiff_tombstone b p diff =
     (case map_of b p of
        None \<Rightarrow> AList.update p \<lparr> path = p, code = None, isBinary = None \<rparr> diff
      | Some bp \<Rightarrow> diff)"

definition getDiff :: "IModulesByPath \<Rightarrow> IModulesByPath \<Rightarrow> IModulesByPath" where
  "getDiff a b =
     fold (getDiff_tombstone b) (Object_keys a)
       (fold (getDiff_put b) (filter (getDiff_filter a b) (Object_keys b)) [])"

text \<open>
  The specification's wording of the same function, path by path: a path of \<open>next\<close> is
  included if it is absent from \<open>previous\<close> or its code differs; a path of \<open>previous\<close>
  that is absent from \<open>next\<close> gets a tombstone; nothing else is included.
\<close>

definition getDiff_spec ::
  "(string \<rightharpoonup> IModule) \<Rightarrow> (string \<rightharpoonup> IModule) \<Rightarrow> (string \<rightharpoonup> IModule)" where
  "getDiff_spec previous next p =
     (case next p of
        Some n \<Rightarrow>
          (case previous p of
             None \<Rightarrow> Some \<lparr> path = p, code = code n, isBinary = isBinary n \<rparr>
           | Some q \<Rightarrow>
               (if code q = code n then None
                else Some \<lparr> path = p, code = code n, isBinary = isBinary n \<rparr>))
      | None \<Rightarrow>
          (case previous p of
             None \<Rightarrow> None
           | Some q \<Rightarrow> Some \<lparr> path = p, code = None, isBinary = None \<rparr>))"

subsection \<open>Snapshots as the specification sees them\<close>

text \<open>
  The specification's \<^verbatim>\<open>ContentSnapshot\<close> maps a path to \<^verbatim>\<open>{code, isBinary}\<close>; the
  \<^verbatim>\<open>path\<close> field of the source's entries repeats the key. \<open>snapshot_of\<close> reads an
  object as that mapping.
\<close>

definition snapshot_of :: "IModulesByPath \<Rightarrow> (string \<rightharpoonup> string option \<times> bool option)" where
  "snapshot_of obj p = map_option (\<lambda>m. (code m, isBinary m)) (map_of obj p)"

text \<open>
  An object as the source builds it: a key occurs once, and the entry stored under a
  key carries that key in its \<^verbatim>\<open>path\<close> field (as in \<^verbatim>\<open>modulesObject[path] = { path, ... }\<close>,
  \<^verbatim>\<open>modulesToSend['/package.json'] = { ..., path: '/package.json' }\<close> and
  \<^verbatim>\<open>diff[p] = { ..., path: p }\<close>).
\<close>

definition keyed_by_path :: "IModulesByPath \<Rightarrow> bool" where
  "keyed_by_path obj \<longleftrightarrow> distinct (map fst obj) \<and> list_all (\<lambda>e. path (snd e) = fst e) obj"

subsection \<open>Applying a diff as a patch\<close>

text \<open>
  Modelled from the spec: the receiver of \<^verbatim>\<open>sandbox:update\<close> is not part of the source.
  The specification applies a diff to a snapshot entry by entry: an entry whose code is
  \<^verbatim>\<open>null\<close> deletes its path, any other entry is stored under its path.
\<close>

definition applyPatch_entry :: "string \<times> IModule \<Rightarrow> IModulesByPath \<Rightarrow> IModulesByPath" where
  "applyPatch_entry e snapshot =
     (if code (snd e) = None then AList.delete (fst e) snapshot
      else AList.update (fst e) (snd e) snapshot)"

definition applyPatch :: "IModulesByPath \<Rightarrow> IModulesByPath \<Rightarrow> IModulesByPath" where
  "applyPatch snapshot diff = fold applyPatch_entry diff snapshot"

text \<open>The entries of a snapshot that are not tombstones, and the code a snapshot holds at a path.\<close>

definition non_deleted :: "IModulesByPath \<Rightarrow> IModulesByPath" where
  "non_deleted obj = filter (\<lambda>e. code (snd e) \<noteq> None) obj"

definition code_at :: "IModulesByPath \<Rightarrow> string \<Rightarrow> string option" where
  "code_at obj p = (case map_of obj p of None \<Rightarrow> None | Some m \<Rightarrow> code m)"


section \<open>Navigation history\<close>

text \<open>
  The component state, field by field as the source's \<^verbatim>\<open>State\<close> type declares it.
  JavaScript numbers that count positions are integers here (the position may become
  negative); \<^verbatim>\<open>string | undefined\<close> fields are options.
\<close>

record State =
  frameInitialized :: bool
  history :: "string list"
  historyPosition :: int
  urlInAddressBar :: string
  url :: "string option"
  overlayMessage :: "string option"
  hibernated :: bool
  sseError :: bool
  showScreenshot :: bool

text \<open>
  The state the constructor sets up; \<open>address\<close> is the value of
  \<^verbatim>\<open>serverPreview ? getSSEUrl(sandbox, initialPath) : frameUrl(sandbox, initialPath || '')\<close>.
\<close>

definition initialState :: "string \<Rightarrow> State" where
  "initialState address =
     \<lparr> frameInitialized = False, history = [], historyPosition = 0,
       urlInAddressBar = address, url = None, overlayMessage = None,
       hibernated = False, sseError = False, showScreenshot = True \<rparr>"

text \<open>
  \<^verbatim>\<open>Array.prototype.slice(start, end)\<close>: a negative index counts from the end of the
  array, every index is clamped to the array, and an empty range gives the empty array.
  \<open>slice_from\<close> is the call with one argument, \<^verbatim>\<open>slice(start)\<close>.
\<close>

definition slice_index :: "'a list \<Rightarrow> int \<Rightarrow> nat" where
  "slice_index xs i =
     (if i < 0 then nat (max (int (length xs) + i) 0) else nat (min i (int (length xs))))"

definition slice :: "'a list \<Rightarrow> int \<Rightarrow> int \<Rightarrow> 'a list" where
  "slice xs start end = take (slice_index xs end - slice_index xs start) (drop (slice_index xs start) xs)"

definition slice_from :: "'a list \<Rightarrow> int \<Rightarrow> 'a list" where
  "slice_from xs start = drop (slice_index xs start) xs"

text \<open>\<^verbatim>\<open>xs[i]\<close> on an array: \<^verbatim>\<open>undefined\<close> (here \<open>None\<close>) outside the array.\<close>

definition array_get :: "'a list \<Rightarrow> int \<Rightarrow> 'a option" where
  "array_get xs i = (if 0 \<le> i \<and> i < int (length xs) then Some (xs ! nat i) else None)"

text \<open>
  \<^verbatim>\<open>commitUrl(url, action, diff)\<close>, with each \<^verbatim>\<open>setState\<close> applied at once. The
  \<^verbatim>\<open>switch\<close> compares the action with \<^verbatim>\<open>'POP'\<close> and \<^verbatim>\<open>'REPLACE'\<close>; every other
  action, \<^verbatim>\<open>'PUSH'\<close> among them, takes the default branch.
\<close>

definition commitUrl :: "string \<Rightarrow> string \<Rightarrow> int \<Rightarrow> State \<Rightarrow> State" where
  "commitUrl u action diff s =
     (if action = ''POP'' then
        s\<lparr> historyPosition := historyPosition s + diff, urlInAddressBar := u \<rparr>
      else if action = ''REPLACE'' then
        s\<lparr> history := slice (history s) 0 (historyPosition s) @ [u]
                        @ slice_from (history s) (historyPosition s + 1),
           urlInAddressBar := u \<rparr>
      else
        s\<lparr> history := slice (history s) 0 (historyPosition s + 1) @ [u],
           historyPosition := historyPosition s + 1,
           urlInAddressBar := u \<rparr>)"

text \<open>
  \<^verbatim>\<open>handleRefresh\<close>: the url is \<^verbatim>\<open>history[historyPosition] || urlInAddressBar\<close>, so an
  entry that is missing or the empty string gives way to the address bar. The
  assignment to the frame's \<^verbatim>\<open>src\<close> is recorded with the effects of the controller
  below; this is the \<^verbatim>\<open>setState\<close> call.
\<close>

definition handleRefresh_url :: "State \<Rightarrow> string" where
  "handleRefresh_url s =
     (case array_get (history s) (historyPosition s) of
        None \<Rightarrow> urlInAddressBar s
      | Some u \<Rightarrow> (if u = [] then urlInAddressBar s else u))"

definition handleRefresh :: "State \<Rightarrow> State" where
  "handleRefresh s =
     s\<lparr> history := [handleRefresh_url s], historyPosition := 0,
        urlInAddressBar := handleRefresh_url s \<rparr>"

text \<open>Sequences of committed navigation transitions.\<close>

datatype transition = Commit string string int | Refresh

fun commit :: "transition \<Rightarrow> State \<Rightarrow> State" where
  "commit (Commit u action diff) s = commitUrl u action diff s"
| "commit Refresh s = handleRefresh s"

definition commits :: "transition list \<Rightarrow> State \<Rightarrow> State" where
  "commits ts s = fold commit ts s"

definition pushes :: "string list \<Rightarrow> State \<Rightarrow> State" where
  "pushes us s = fold (\<lambda>u. commitUrl u ''PUSH'' 0) us s"

text \<open>
  The invariant of the specification: when there are entries, the position is an index
  into them and the address bar shows the entry at the position.
\<close>

definition position_valid :: "State \<Rightarrow> bool" where
  "position_valid s \<longleftrightarrow>
     0 \<le> historyPosition s \<and> historyPosition s < int (length (history s))
     \<and> array_get (history s) (historyPosition s) = Some (urlInAddressBar s)"

definition history_invariant :: "State \<Rightarrow> bool" where
  "history_invariant s \<longleftrightarrow> (if history s = [] then True else position_valid s)"

text \<open>
  A transition that keeps the position inside the entries: any PUSH, REPLACE or
  refresh, and a POP whose target position is an index of the entries and whose url is
  the entry stored there.
\<close>

fun in_range :: "transition \<Rightarrow> State \<Rightarrow> bool" where
  "in_range (Commit u action diff) s =
     (if action = ''POP''
      then array_get (history s) (historyPosition s + diff) = Some u
      else True)"
| "in_range Refresh s = True"

fun all_in_range :: "transition list \<Rightarrow> State \<Rightarrow> bool" where
  "all_in_range [] s = True"
| "all_in_range (t # ts) s = (in_range t s \<and> all_in_range ts (commit t s))"

section \<open>The preview controller\<close>

text \<open>
  The types \<^verbatim>\<open>Module\<close>, \<^verbatim>\<open>Sandbox\<close> and \<^verbatim>\<open>Settings\<close> are imported by the source from
  files outside of it; the records hold the fields the source reads, under prefixed
  names (\<^verbatim>\<open>m.id\<close> is \<open>module_id m\<close>, \<^verbatim>\<open>sandbox.modules\<close> is \<open>sandbox_modules\<close>).
  The code and the binary flag of a module have the types of the entry fields they are
  copied into. Directories are only handed on to the path resolver.
\<close>

record Module =
  module_id :: string
  module_code :: "string option"
  module_isBinary :: "bool option"

typedecl Directory

record Sandbox =
  sandbox_id :: string
  sandbox_modules :: "Module list"
  sandbox_directories :: "Directory list"
  sandbox_entry :: string
  sandbox_externalResources :: "string list"
  sandbox_template :: string

record Settings =
  clearConsoleEnabled :: bool
  forceRefresh :: bool

text \<open>
  The props the controller reads. A callback prop is a flag that tells whether the
  callback was given; calling it is an effect (below).
\<close>

record Props =
  sandbox :: Sandbox
  settings :: Settings
  extraModules :: "IModulesByPath option"
  currentModule :: "Module option"
  isInProjectView :: bool
  containerStatus :: "string option"
  onInitialized :: bool
  onClearErrors :: bool
  onAction :: bool
  onResize :: bool

text \<open>
  What the source takes from its surroundings: the path resolver \<^verbatim>\<open>getModulePath\<close>
  (\<open>None\<close> for \<^verbatim>\<open>null\<close>), the generator of the synthetic manifest, \<^verbatim>\<open>frameUrl\<close>, the
  host and environment that \<^verbatim>\<open>getSSEUrl\<close> reads, and whether the document has the
  element with id \<^verbatim>\<open>sandbox\<close>.
\<close>

record Env =
  getModulePath :: "Module list \<Rightarrow> Directory list \<Rightarrow> string \<Rightarrow> string option"
  generateFileFromSandbox :: "Sandbox \<Rightarrow> string"
  frameUrl :: "Sandbox \<Rightarrow> string"
  host :: string
  development_or_staging :: bool
  sandbox_element :: bool

definition getSSEUrl :: "Env \<Rightarrow> Sandbox option \<Rightarrow> string \<Rightarrow> string" where
  "getSSEUrl env sb initialPath =
     ''https://'' @ (case sb of None \<Rightarrow> [] | Some x \<Rightarrow> sandbox_id x @ ''.'') @ ''sse.''
       @ (if development_or_staging env then ''codesandbox.io'' else host env) @ initialPath"

text \<open>
  The instance fields: \<open>socket\<close> tells whether \<^verbatim>\<open>this.$socket\<close> is set. The fields of
  the connection handling (\<^verbatim>\<open>connectTimeout\<close>, \<^verbatim>\<open>localClose\<close>) are not read by the
  functions embedded here.
\<close>

record LastSent =
  sandboxId :: string
  modules :: IModulesByPath

record Preview =
  serverPreview :: bool
  lastSent :: LastSent
  socket :: bool
  state :: State

text \<open>
  Everything a handler does besides changing the instance, in the order in which it
  does it: messages handed to \<^verbatim>\<open>dispatch\<close>, emissions on the socket, calls of callback
  props, the assignment to the frame's \<^verbatim>\<open>src\<close>, timers, and an exception that leaves
  the handler.
\<close>

datatype dispatched =
    Clear_console
  | Error_clear
  | Evaluate string
  | Compile int string IModulesByPath string "string list" bool string bool

datatype payload = Updates IModulesByPath | Fields "(string \<times> string) list"

datatype effect =
    Console_clear
  | Dispatch dispatched
  | Socket_emit string payload
  | Set_frame_src string
  | Register_frame string
  | Call_onInitialized
  | Call_onClearErrors
  | Call_onResize int
  | Call_onAction "(string \<times> string) list" string
  | Hide_screenshot_after nat
  | Throws string

subsection \<open>getModulesToSend\<close>

text \<open>The body of \<^verbatim>\<open>sandbox.modules.forEach\<close>; \<^verbatim>\<open>if (path)\<close> rejects \<^verbatim>\<open>null\<close> and the empty string.\<close>

definition addModule :: "Env \<Rightarrow> Sandbox \<Rightarrow> Module \<Rightarrow> IModulesByPath \<Rightarrow> IModulesByPath" where
  "addModule env sb m modulesObject =
     (case getModulePath env (sandbox_modules sb) (sandbox_directories sb) (module_id m) of
        None \<Rightarrow> modulesObject
      | Some p \<Rightarrow>
          (if p = [] then modulesObject
           else AList.update p \<lparr> path = p, code = module_code m, isBinary = module_isBinary m \<rparr>
                  modulesObject))"

text \<open>
  The object spread \<^verbatim>\<open>{ ...x, ...y }\<close> copies, for each key of \<open>x\<close> and then for each
  key of \<open>y\<close>, the value the object holds under the key into the new object.
\<close>

definition assign :: "(string \<times> 'v) list \<Rightarrow> (string \<times> 'v) list \<Rightarrow> (string \<times> 'v) list" where
  "assign target source =
     fold (\<lambda>k obj. case map_of source k of None \<Rightarrow> obj | Some v \<Rightarrow> AList.update k v obj)
       (Object_keys source) target"

definition spread :: "(string \<times> 'v) list \<Rightarrow> (string \<times> 'v) list \<Rightarrow> (string \<times> 'v) list" where
  "spread x y = assign (assign [] x) y"

text \<open>The path under which \<open>addModule\<close> stores a module, if it stores it.\<close>

definition resolvedPath :: "Env \<Rightarrow> Sandbox \<Rightarrow> Module \<Rightarrow> string option" where
  "resolvedPath env sb m =
     (case getModulePath env (sandbox_modules sb) (sandbox_directories sb) (module_id m) of
        None \<Rightarrow> None
      | Some p \<Rightarrow> (if p = [] then None else Some p))"

definition getModulesToSend :: "Env \<Rightarrow> Props \<Rightarrow> IModulesByPath" where
  "getModulesToSend env props =
     (let modulesObject = fold (addModule env (sandbox props)) (sandbox_modules (sandbox props)) [];
          extra = (case extraModules props of None \<Rightarrow> [] | Some x \<Rightarrow> x);
          modulesToSend = spread extra modulesObject
      in case map_of modulesToSend ''/package.json'' of
           None \<Rightarrow>
             AList.update ''/package.json''
               \<lparr> path = ''/package.json'',
                 code = Some (generateFileFromSandbox env (sandbox props)),
                 isBinary = Some False \<rparr>
               modulesToSend
         | Some x \<Rightarrow> modulesToSend)"

definition initializeLastSent :: "Env \<Rightarrow> Props \<Rightarrow> Preview \<Rightarrow> Preview" where
  "initializeLastSent env props c =
     c\<lparr> lastSent := \<lparr> sandboxId = sandbox_id (sandbox props),
                       modules = getModulesToSend env props \<rparr> \<rparr>"

subsection \<open>executeCodeImmediately\<close>

text \<open>
  \<^verbatim>\<open>getRenderedModule\<close> reads \<^verbatim>\<open>currentModule.id\<close> outside of the project view, which
  raises a TypeError when the optional prop is missing (\<open>Inl\<close>). A path that the
  resolver does not find goes into the message as \<^verbatim>\<open>null\<close>, written as the empty
  string here.
\<close>

definition getRenderedModule :: "Env \<Rightarrow> Props \<Rightarrow> string + string" where
  "getRenderedModule env props =
     (if isInProjectView props then Inr (''/'' @ sandbox_entry (sandbox props))
      else case currentModule props of
             None \<Rightarrow> Inl ''TypeError''
           | Some m \<Rightarrow>
               (case getModulePath env (sandbox_modules (sandbox props))
                       (sandbox_directories (sandbox props)) (module_id m) of
                  None \<Rightarrow> Inr []
                | Some p \<Rightarrow> Inr p))"

definition clearErrors :: "Props \<Rightarrow> effect list" where
  "clearErrors props =
     Dispatch Error_clear # (if onClearErrors props then [Call_onClearErrors] else [])"

text \<open>The assignment to the frame's \<^verbatim>\<open>src\<close> in \<^verbatim>\<open>handleRefresh\<close>.\<close>

definition handleRefresh_src :: "Env \<Rightarrow> Props \<Rightarrow> Preview \<Rightarrow> effect list" where
  "handleRefresh_src env props c =
     (if sandbox_element env then
        [Set_frame_src
           (if handleRefresh_url (state c) \<noteq> [] then handleRefresh_url (state c)
            else if serverPreview c then getSSEUrl env (Some (sandbox props)) []
            else frameUrl env (sandbox props))]
      else [])"

text \<open>The command of the \<^verbatim>\<open>evaluate\<close> message: \<^verbatim>\<open>history.pushState({}, null, '/')\<close>.\<close>

definition pushState_command :: string where
  "pushState_command = ''history.pushState({}, null, '' @ [CHR 0x27] @ ''/'' @ [CHR 0x27] @ '')''"

definition executeCodeImmediately :: "Env \<Rightarrow> Props \<Rightarrow> bool \<Rightarrow> Preview \<Rightarrow> Preview \<times> effect list" where
  "executeCodeImmediately env props initialRender c =
     (let cleared =
            (if clearConsoleEnabled (settings props) \<and> \<not> serverPreview c
             then [Console_clear, Dispatch Clear_console] else [])
            @ clearErrors props
      in if forceRefresh (settings props) \<and> \<not> initialRender then
           (c\<lparr> state := handleRefresh (state c) \<rparr>, cleared @ handleRefresh_src env props c)
         else
           (let evaluated =
                  cleared @ (if \<not> isInProjectView props
                             then [Dispatch (Evaluate pushState_command)] else []);
                modulesToSend = getModulesToSend env props
            in if serverPreview c then
                 (let diff = getDiff (modules (lastSent c)) modulesToSend;
                      c' = (if containerStatus props = Some ''sandbox-started''
                            then c\<lparr> lastSent := (lastSent c)\<lparr> modules := modulesToSend \<rparr> \<rparr>
                            else c)
                  in (c', evaluated
                          @ (if length (Object_keys diff) > 0 \<and> socket c
                             then [Socket_emit ''sandbox:update'' (Updates diff)] else [])))
               else
                 (case getRenderedModule env props of
                    Inl e \<Rightarrow> (c, evaluated @ [Throws e])
                  | Inr entry \<Rightarrow>
                      (c, evaluated
                          @ [Dispatch (Compile 3 entry modulesToSend (sandbox_id (sandbox props))
                               (sandbox_externalResources (sandbox props))
                               (\<not> isInProjectView props)
                               (sandbox_template (sandbox props))
                               (onAction props))]))))"

text \<open>The effects that are emissions on the socket, and those that are exceptions.\<close>

fun is_socket_emit :: "effect \<Rightarrow> bool" where
  "is_socket_emit (Socket_emit channel x) = True"
| "is_socket_emit e = False"

fun is_throws :: "effect \<Rightarrow> bool" where
  "is_throws (Throws x) = True"
| "is_throws e = False"

subsection \<open>handleMessage\<close>

text \<open>
  A message from the frame, by the cases of the handler's \<^verbatim>\<open>switch\<close> on its type, with
  the fields the handler reads. \<open>Other\<close> is any type without a case. The rest of an
  object (\<^verbatim>\<open>...message\<close>, \<^verbatim>\<open>...data\<close>) is a list of fields.
\<close>

datatype envelope =
    Initialized
  | Render
  | Urlchange string string int
  | Resize int
  | Action "(string \<times> string) list"
  | Socket_message string "(string \<times> string) list"
  | Done
  | Other string

record Message =
  codesandbox :: bool
  envelope :: envelope

text \<open>
  \<^verbatim>\<open>handleMessage(data, source)\<close>: \<open>data\<close> is \<open>None\<close> for a falsy value, \<open>source\<close> tells
  whether the source is truthy. An \<^verbatim>\<open>initialized\<close> message without a source reaches the
  \<^verbatim>\<open>switch\<close>, which has no case for it.
\<close>

definition handleMessage ::
  "Env \<Rightarrow> Props \<Rightarrow> Message option \<Rightarrow> bool \<Rightarrow> Preview \<Rightarrow> Preview \<times> effect list" where
  "handleMessage env props data source c =
     (case data of
        None \<Rightarrow> (c, [])
      | Some d \<Rightarrow>
          (if \<not> codesandbox d then (c, [])
           else if envelope d = Initialized \<and> source then
             (let registered =
                    Register_frame
                      (if serverPreview c then getSSEUrl env (Some (sandbox props)) []
                       else frameUrl env (sandbox props))
                    # (if \<not> frameInitialized (state c) \<and> onInitialized props
                       then [Call_onInitialized] else [])
                    @ [Hide_screenshot_after (if serverPreview c then 0 else 600)];
                  r = executeCodeImmediately env props True c
              in (fst r, registered @ snd r))
           else
             (case envelope d of
                Render \<Rightarrow> executeCodeImmediately env props False c
              | Urlchange u action diff \<Rightarrow> (c\<lparr> state := commitUrl u action diff (state c) \<rparr>, [])
              | Resize height \<Rightarrow> (c, if onResize props then [Call_onResize height] else [])
              | Action rest \<Rightarrow>
                  (c, if onAction props
                      then [Call_onAction rest (sandbox_id (sandbox props))] else [])
              | Socket_message channel message \<Rightarrow>
                  (c, if socket c then [Socket_emit channel (Fields message)] else [])
              | Done \<Rightarrow> (c\<lparr> state := (state c)\<lparr> showScreenshot := False \<rparr> \<rparr>, [])
              | Initialized \<Rightarrow> (c, [])
              | Other t \<Rightarrow> (c, []))))"

section \<open>Example inputs\<close>

text \<open>
  A sandbox with two modules, of which the resolver finds the first at \<^verbatim>\<open>/index.js\<close> and
  does not find the second; extra modules for \<^verbatim>\<open>/index.js\<close> and \<^verbatim>\<open>/extra.js\<close>; a
  container that reports \<^verbatim>\<open>sandbox-started\<close>. \<open>props0\<close> takes the \<^verbatim>\<open>forceRefresh\<close>
  setting, \<open>preview0\<close> tells whether the preview is a server preview with its socket
  or an embedded one without a socket; nothing has been sent yet.
\<close>

definition env0 :: Env where
  "env0 = \<lparr> getModulePath = (\<lambda>ms ds i. if i = ''1'' then Some ''/index.js'' else None),
             generateFileFromSandbox = (\<lambda>sb. ''{}''),
             frameUrl = (\<lambda>sb. ''https://frame''),
             host = ''codesandbox.io'',
             development_or_staging = False,
             sandbox_element = True \<rparr>"

definition sandbox0 :: Sandbox where
  "sandbox0 = \<lparr> sandbox_id = ''sb'',
       sandbox_modules =
         [\<lparr> module_id = ''1'', module_code = Some ''main'', module_isBinary = Some False \<rparr>,
          \<lparr> module_id = ''2'', module_code = Some ''orphan'', module_isBinary = Some False \<rparr>],
       sandbox_directories = [],
       sandbox_entry = ''index.js'',
       sandbox_externalResources = [],
       sandbox_template = ''node'' \<rparr>"

definition props0 :: "bool \<Rightarrow> Props" where
  "props0 force = \<lparr> sandbox = sandbox0,
       settings = \<lparr> clearConsoleEnabled = False, forceRefresh = force \<rparr>,
       extraModules =
         Some [(''/index.js'', \<lparr> path = ''/index.js'', code = Some ''extra'', isBinary = None \<rparr>),
               (''/extra.js'', \<lparr> path = ''/extra.js'', code = Some ''more'', isBinary = None \<rparr>)],
       currentModule = None,
       isInProjectView = True,
       containerStatus = Some ''sandbox-started'',
       onInitialized = False, onClearErrors = False, onAction = False, onResize = False \<rparr>"

definition preview0 :: "bool \<Rightarrow> Preview" where
  "preview0 server = \<lparr> serverPreview = server,
       lastSent = \<lparr> sandboxId = ''sb'', modules = [] \<rparr>,
       socket = server,
       state = initialState ''https://sb.sse.codesandbox.io'' \<rparr>"

section \<open>Properties of getDiff\<close>

lemma map_of_getDiff_put:
  "map_of (getDiff_put b p diff) q =
     (if q = p \<and> map_of b q \<noteq> None
      then map_option (\<lambda>m. \<lparr> path = q, code = code m, isBinary = isBinary m \<rparr>) (map_of b q)
      else map_of diff q)"
  by (auto simp: getDiff_put_def update_conv' split: option.splits)

lemma map_of_getDiff_tombstone:
  "map_of (getDiff_tombstone b p diff) q =
     (if q = p \<and> map_of b q = None
      then Some \<lparr> path = q, code = None, isBinary = None \<rparr>
      else map_of diff q)"
  by (auto simp: getDiff_tombstone_def update_conv' split: option.splits)

lemma map_of_fold_getDiff_put:
  "map_of (fold (getDiff_put b) ps diff) q =
     (if q \<in> set ps \<and> map_of b q \<noteq> None
      then map_option (\<lambda>m. \<lparr> path = q, code = code m, isBinary = isBinary m \<rparr>) (map_of b q)
      else map_of diff q)"
proof (induction ps arbitrary: diff)
  case Nil
  show ?case by simp
next
  case (Cons p ps)
  show ?case by (auto simp: Cons.IH map_of_getDiff_put)
qed

lemma map_of_fold_getDiff_tombstone:
  "map_of (fold (getDiff_tombstone b) ps diff) q =
     (if q \<in> set ps \<and> map_of b q = None
      then Some \<lparr> path = q, code = None, isBinary = None \<rparr>
      else map_of diff q)"
proof (induction ps arbitrary: diff)
  case Nil
  show ?case by simp
next
  case (Cons p ps)
  show ?case by (auto simp: Cons.IH map_of_getDiff_tombstone)
qed

lemma distinct_getDiff_put:
  "distinct (map fst diff) \<Longrightarrow> distinct (map fst (getDiff_put b p diff))"
  by (simp add: getDiff_put_def distinct_update split: option.splits)

lemma distinct_getDiff_tombstone:
  "distinct (map fst diff) \<Longrightarrow> distinct (map fst (getDiff_tombstone b p diff))"
  by (simp add: getDiff_tombstone_def distinct_update split: option.splits)

lemma distinct_fold_getDiff_put:
  "distinct (map fst diff) \<Longrightarrow> distinct (map fst (fold (getDiff_put b) ps diff))"
  by (induction ps arbitrary: diff) (simp_all add: distinct_getDiff_put)

lemma distinct_fold_getDiff_tombstone:
  "distinct (map fst diff) \<Longrightarrow> distinct (map fst (fold (getDiff_tombstone b) ps diff))"
  by (induction ps arbitrary: diff) (simp_all add: distinct_getDiff_tombstone)

lemma key_iff_map_of: "q \<in> set (Object_keys obj) \<longleftrightarrow> map_of obj q \<noteq> None"
  by (simp add: Object_keys_def map_of_eq_None_iff)

lemma getDiff_lookup: "map_of (getDiff a b) q = getDiff_spec (map_of a) (map_of b) q"
  by (auto simp: getDiff_def getDiff_spec_def map_of_fold_getDiff_tombstone
        map_of_fold_getDiff_put key_iff_map_of getDiff_filter_def
      split: option.splits)

lemma getDiff_distinct: "distinct (map fst (getDiff a b))"
  by (simp add: getDiff_def distinct_fold_getDiff_tombstone distinct_fold_getDiff_put)

lemma fold_getDiff_tombstone_present:
  "\<forall>p \<in> set ps. map_of b p \<noteq> None \<Longrightarrow> fold (getDiff_tombstone b) ps diff = diff"
  by (induction ps arbitrary: diff) (auto simp: getDiff_tombstone_def)

lemma getDiff_filter_same: "getDiff_filter a a p = False"
  by (simp add: getDiff_filter_def split: option.splits)

lemma getDiff_same: "getDiff a a = []"
  by (simp add: getDiff_def getDiff_filter_same fold_getDiff_tombstone_present key_iff_map_of)

lemma update_fresh: "k \<notin> fst ` set al \<Longrightarrow> AList.update k v al = al @ [(k, v)]"
  by (induction al) auto

lemma fold_getDiff_put_append:
  assumes "distinct (map fst (acc @ ys))"
    and "\<forall>e \<in> set ys. map_of b (fst e) = Some (snd e) \<and> path (snd e) = fst e"
  shows "fold (getDiff_put b) (map fst ys) acc = acc @ ys"
  using assms
proof (induction ys arbitrary: acc)
  case Nil
  show ?case by simp
next
  case (Cons y ys)
  obtain k m where y: "y = (k, m)" by (cases y)
  from Cons.prems y have km: "map_of b k = Some m" "path m = k" and fresh: "k \<notin> fst ` set acc"
    by auto
  have step: "getDiff_put b k acc = acc @ [(k, m)]"
    using km fresh by (simp add: getDiff_put_def update_fresh)
  have "fold (getDiff_put b) (map fst ys) (acc @ [(k, m)]) = (acc @ [(k, m)]) @ ys"
    using Cons.prems y by (intro Cons.IH) auto
  then show ?case by (simp add: y step)
qed

lemma getDiff_filter_empty: "p \<in> set (Object_keys b) \<Longrightarrow> getDiff_filter [] b p"
  by (auto simp: getDiff_filter_def key_iff_map_of)

lemma getDiff_empty_keyed:
  assumes "keyed_by_path b"
  shows "getDiff [] b = b"
proof -
  have keep: "filter (getDiff_filter [] b) (map fst b) = map fst b"
    using getDiff_filter_empty[of _ b] by (simp add: Object_keys_def)
  have "\<forall>e \<in> set b. map_of b (fst e) = Some (snd e) \<and> path (snd e) = fst e"
    using assms by (auto simp: keyed_by_path_def list_all_iff)
  moreover have "distinct (map fst ([] @ b))"
    using assms by (simp add: keyed_by_path_def)
  ultimately have "fold (getDiff_put b) (map fst b) [] = [] @ b"
    by (rule fold_getDiff_put_append[rotated])
  then show ?thesis
    by (simp add: getDiff_def Object_keys_def keep)
qed

lemma snapshot_of_getDiff_empty: "snapshot_of (getDiff [] b) p = snapshot_of b p"
  by (simp add: snapshot_of_def getDiff_lookup getDiff_spec_def split: option.splits)

lemma map_of_applyPatch_entry:
  "map_of (applyPatch_entry e snapshot) p =
     (if p = fst e then (if code (snd e) = None then None else Some (snd e))
      else map_of snapshot p)"
  by (simp add: applyPatch_entry_def update_conv' delete_conv')

lemma map_of_applyPatch:
  "distinct (map fst diff) \<Longrightarrow>
   map_of (applyPatch snapshot diff) p =
     (case map_of diff p of
        None \<Rightarrow> map_of snapshot p
      | Some m \<Rightarrow> (if code m = None then None else Some m))"
  unfolding applyPatch_def
proof (induction diff arbitrary: snapshot)
  case Nil
  show ?case by simp
next
  case (Cons e diff)
  from Cons.prems have d: "distinct (map fst diff)" and fresh: "fst e \<notin> fst ` set diff"
    by auto
  from fresh have none: "map_of diff (fst e) = None"
    by (simp add: map_of_eq_None_iff)
  show ?case
    using none by (cases e) (auto simp: Cons.IH[OF d] map_of_applyPatch_entry split: option.splits)
qed

section \<open>Properties of the navigation history\<close>

lemma slice_index_0: "slice_index xs 0 = 0" by (simp add: slice_index_def)

lemma slice_0_take: "- 1 \<le> i \<Longrightarrow> slice xs 0 (i + 1) = take (nat (i + 1)) xs"
  by (auto simp: slice_def slice_index_def min_def)

lemma commitUrl_POP:
  "commitUrl u ''POP'' d s = s\<lparr> historyPosition := historyPosition s + d, urlInAddressBar := u \<rparr>"
  by (simp add: commitUrl_def)

lemma commitUrl_PUSH:
  "commitUrl u ''PUSH'' d s = s\<lparr> history := slice (history s) 0 (historyPosition s + 1) @ [u],
           historyPosition := historyPosition s + 1,
           urlInAddressBar := u \<rparr>"
  by (simp add: commitUrl_def)

lemma commitUrl_REPLACE:
  "commitUrl u ''REPLACE'' d s =  s\<lparr> history := slice (history s) 0 (historyPosition s) @ [u]
                        @ slice_from (history s) (historyPosition s + 1),
           urlInAddressBar := u \<rparr>"
  by (simp add: commitUrl_def)

lemma pushes_full:
  "int (length (history s)) \<le> historyPosition s + 1 \<Longrightarrow>
   history (pushes us s) = history s @ us
   \<and> historyPosition (pushes us s) = historyPosition s + int (length us)"
proof (induction us arbitrary: s)
  case Nil
  show ?case by (simp add: pushes_def)
next
  case (Cons u us)
  have "slice (history s) 0 (historyPosition s + 1) = history s"
    using Cons.prems by (simp add: slice_def slice_index_def)
  then have h: "history (commitUrl u ''PUSH'' 0 s) = history s @ [u]"
    and p: "historyPosition (commitUrl u ''PUSH'' 0 s) = historyPosition s + 1"
    by (simp_all add: commitUrl_PUSH)
  have "history (pushes us (commitUrl u ''PUSH'' 0 s)) = history (commitUrl u ''PUSH'' 0 s) @ us
    \<and> historyPosition (pushes us (commitUrl u ''PUSH'' 0 s))
      = historyPosition (commitUrl u ''PUSH'' 0 s) + int (length us)"
    using Cons.prems by (intro Cons.IH) (simp add: h p)
  then show ?case by (simp add: pushes_def h p)
qed

lemma replace_in_range:
  assumes "0 \<le> i" "i < int (length xs)"
  shows "slice xs 0 i @ [u] @ slice_from xs (i + 1) = xs[nat i := u]"
proof -
  have a: "slice xs 0 i = take (nat i) xs"
    using assms by (simp add: slice_def slice_index_def)
  have "nat (i + 1) = Suc (nat i)" using assms by simp
  then have b: "slice_from xs (i + 1) = drop (Suc (nat i)) xs"
    using assms by (simp add: slice_from_def slice_index_def)
  have "nat i < length xs" using assms by simp
  then show ?thesis
    by (simp add: a b upd_conv_take_nth_drop)
qed

lemma handleRefresh_valid: "position_valid (handleRefresh s)"
  by (simp add: position_valid_def handleRefresh_def array_get_def)


lemma push_in_range:
  assumes "0 \<le> historyPosition s" "historyPosition s < int (length (history s))"
  shows "history (commitUrl u ''PUSH'' d s) = take (nat (historyPosition s + 1)) (history s) @ [u]"
    and "length (history (commitUrl u ''PUSH'' d s)) = nat (historyPosition s + 2)"
proof -
  show h: "history (commitUrl u ''PUSH'' d s) = take (nat (historyPosition s + 1)) (history s) @ [u]"
    using assms by (simp add: commitUrl_PUSH slice_0_take)
  have "length (take (nat (historyPosition s + 1)) (history s)) = nat (historyPosition s + 1)"
    using assms by simp
  then show "length (history (commitUrl u ''PUSH'' d s)) = nat (historyPosition s + 2)"
    using assms by (simp add: h)
qed

lemma push_valid:
  assumes "position_valid s"
  shows "position_valid (commitUrl u ''PUSH'' d s)"
proof -
  from assms have r: "0 \<le> historyPosition s" "historyPosition s < int (length (history s))"
    by (simp_all add: position_valid_def)
  have p: "historyPosition (commitUrl u ''PUSH'' d s) = historyPosition s + 1"
    and a: "urlInAddressBar (commitUrl u ''PUSH'' d s) = u"
    by (simp_all add: commitUrl_PUSH)
  have l: "length (take (nat (historyPosition s + 1)) (history s)) = nat (historyPosition s + 1)"
    using r by simp
  have n: "history (commitUrl u ''PUSH'' d s) ! nat (historyPosition s + 1) = u"
    unfolding push_in_range(1)[OF r] using l by (simp add: nth_append)
  show ?thesis
    unfolding position_valid_def p a array_get_def push_in_range(2)[OF r]
    using r n by simp
qed

lemma replace_history:
  assumes "0 \<le> historyPosition s" "historyPosition s < int (length (history s))"
  shows "history (commitUrl u ''REPLACE'' d s) = (history s)[nat (historyPosition s) := u]"
  using replace_in_range[OF assms, of u] by (simp add: commitUrl_REPLACE)

lemma replace_valid:
  assumes "position_valid s"
  shows "position_valid (commitUrl u ''REPLACE'' d s)"
proof -
  from assms have r: "0 \<le> historyPosition s" "historyPosition s < int (length (history s))"
    by (simp_all add: position_valid_def)
  have p: "historyPosition (commitUrl u ''REPLACE'' d s) = historyPosition s"
    and a: "urlInAddressBar (commitUrl u ''REPLACE'' d s) = u"
    by (simp_all add: commitUrl_REPLACE)
  show ?thesis
    unfolding position_valid_def p a array_get_def replace_history[OF r]
    using r by simp
qed

lemma pop_valid:
  assumes "array_get (history s) (historyPosition s + d) = Some u"
  shows "position_valid (commitUrl u ''POP'' d s)"
  using assms by (simp add: position_valid_def commitUrl_POP array_get_def split: if_splits)

lemma commit_valid: "position_valid s \<Longrightarrow> in_range t s \<Longrightarrow> position_valid (commit t s)"
proof (cases t)
  case (Commit u action d)
  assume v: "position_valid s" and i: "in_range t s"
  show ?thesis
  proof (cases "action = ''POP''")
    case True
    with i Commit show ?thesis by (simp add: pop_valid)
  next
    case False
    note notpop = this
    show ?thesis
    proof (cases "action = ''REPLACE''")
      case True
      with v Commit show ?thesis by (simp add: replace_valid)
    next
      case False
      with notpop have "commitUrl u action d s = commitUrl u ''PUSH'' d s"
        by (simp add: commitUrl_def)
      with v Commit show ?thesis by (simp add: push_valid)
    qed
  qed
next
  case Refresh
  then show ?thesis by (simp add: handleRefresh_valid)
qed

lemma commits_valid:
  "position_valid s \<Longrightarrow> all_in_range ts s \<Longrightarrow> position_valid (commits ts s)"
  unfolding commits_def
  by (induction ts arbitrary: s) (simp_all add: commit_valid)

section \<open>Properties of the controller\<close>

lemma map_of_assign_fold:
  "map_of (fold (\<lambda>k obj. case map_of src k of None \<Rightarrow> obj | Some v \<Rightarrow> AList.update k v obj) ks target) p =
     (if p \<in> set ks \<and> map_of src p \<noteq> None then map_of src p else map_of target p)"
proof (induction ks arbitrary: target)
  case Nil
  show ?case by simp
next
  case (Cons k ks)
  show ?case by (cases "map_of src k") (auto simp: Cons.IH update_conv')
qed

lemma map_of_assign:
  "map_of (assign target src) p = (case map_of src p of None \<Rightarrow> map_of target p | Some v \<Rightarrow> Some v)"
  by (auto simp: assign_def map_of_assign_fold key_iff_map_of split: option.splits)

lemma map_of_spread:
  "map_of (spread x y) p = (case map_of y p of None \<Rightarrow> map_of x p | Some v \<Rightarrow> Some v)"
  by (simp add: spread_def map_of_assign split: option.splits)

lemma map_of_addModule:
  "map_of (addModule env sb m obj) p =
     (if resolvedPath env sb m = Some p
      then Some \<lparr> path = p, code = module_code m, isBinary = module_isBinary m \<rparr>
      else map_of obj p)"
  by (auto simp: addModule_def resolvedPath_def update_conv' split: option.splits)

lemma find_app:
  "find P (xs @ ys) = (case find P xs of None \<Rightarrow> find P ys | Some x \<Rightarrow> Some x)"
  by (induction xs) simp_all

lemma map_of_fold_addModule:
  "map_of (fold (addModule env sb) ms obj) p =
     (case find (\<lambda>m. resolvedPath env sb m = Some p) (rev ms) of
        Some m \<Rightarrow> Some \<lparr> path = p, code = module_code m, isBinary = module_isBinary m \<rparr>
      | None \<Rightarrow> map_of obj p)"
proof (induction ms arbitrary: obj)
  case Nil
  show ?case by simp
next
  case (Cons m ms)
  show ?case
    by (simp add: Cons.IH map_of_addModule find_app split: option.splits)
qed

lemma getModulesToSend_lookup:
  "map_of (getModulesToSend env props) p =
     (case find (\<lambda>m. resolvedPath env (sandbox props) m = Some p)
             (rev (sandbox_modules (sandbox props))) of
        Some m \<Rightarrow> Some \<lparr> path = p, code = module_code m, isBinary = module_isBinary m \<rparr>
      | None \<Rightarrow>
          (case map_of (case extraModules props of None \<Rightarrow> [] | Some x \<Rightarrow> x) p of
             Some e \<Rightarrow> Some e
           | None \<Rightarrow>
               (if p = ''/package.json''
                then Some \<lparr> path = ''/package.json'',
                            code = Some (generateFileFromSandbox env (sandbox props)),
                            isBinary = Some False \<rparr>
                else None)))"
  by (auto simp: getModulesToSend_def Let_def map_of_spread map_of_fold_addModule update_conv'
      split: option.splits)

lemma filter_emit_clearErrors: "filter is_socket_emit (clearErrors props) = []"
  by (simp add: clearErrors_def)

lemma server_request_effects:
  assumes "serverPreview c"
  shows "filter is_socket_emit (snd (executeCodeImmediately env props initialRender c)) =
     (if \<not> (forceRefresh (settings props) \<and> \<not> initialRender)
         \<and> getDiff (modules (lastSent c)) (getModulesToSend env props) \<noteq> [] \<and> socket c
      then [Socket_emit ''sandbox:update''
              (Updates (getDiff (modules (lastSent c)) (getModulesToSend env props)))]
      else [])"
  using assms
  by (simp add: executeCodeImmediately_def Let_def filter_emit_clearErrors handleRefresh_src_def
        Object_keys_def)

lemma server_request_lastSent:
  assumes "serverPreview c"
  shows "lastSent (fst (executeCodeImmediately env props initialRender c)) =
     (if \<not> (forceRefresh (settings props) \<and> \<not> initialRender)
         \<and> containerStatus props = Some ''sandbox-started''
      then (lastSent c)\<lparr> modules := getModulesToSend env props \<rparr>
      else lastSent c)"
  using assms
  by (simp add: executeCodeImmediately_def Let_def)

lemma server_request_no_throw:
  assumes "serverPreview c"
  shows "filter is_throws (snd (executeCodeImmediately env props initialRender c)) = []"
  using assms
  by (simp add: executeCodeImmediately_def Let_def clearErrors_def handleRefresh_src_def)

lemma handleMessage_socket_message:
  assumes "codesandbox d" "envelope d = Socket_message channel message"
  shows "handleMessage env props (Some d) source c =
           (c, if socket c then [Socket_emit channel (Fields message)] else [])"
  using assms by (simp add: handleMessage_def)

lemma find_rev_None: "find P (rev xs) = None \<longleftrightarrow> \<not> (\<exists>x \<in> set xs. P x)"
  by (auto simp: find_None_iff)

lemma keys_getModulesToSend:
  "set (Object_keys (getModulesToSend env props)) =
     {p. \<exists>m \<in> set (sandbox_modules (sandbox props)). resolvedPath env (sandbox props) m = Some p}
     \<union> set (Object_keys (case extraModules props of None \<Rightarrow> [] | Some x \<Rightarrow> x))
     \<union> {''/package.json''}"
proof -
  have "p \<in> set (Object_keys (getModulesToSend env props)) \<longleftrightarrow>
        p \<in> {p. \<exists>m \<in> set (sandbox_modules (sandbox props)). resolvedPath env (sandbox props) m = Some p}
     \<union> set (Object_keys (case extraModules props of None \<Rightarrow> [] | Some x \<Rightarrow> x))
     \<union> {''/package.json''}" for p
  proof (cases "find (\<lambda>m. resolvedPath env (sandbox props) m = Some p)
                  (rev (sandbox_modules (sandbox props)))")
    case None
    then have "\<not> (\<exists>m \<in> set (sandbox_modules (sandbox props)).
                   resolvedPath env (sandbox props) m = Some p)"
      by (simp add: find_rev_None)
    then show ?thesis
      by (auto simp: key_iff_map_of getModulesToSend_lookup None split: option.splits)
  next
    case (Some m)
    then have "find (\<lambda>m. resolvedPath env (sandbox props) m = Some p)
                 (rev (sandbox_modules (sandbox props))) \<noteq> None"
      by simp
    then have "\<exists>m \<in> set (sandbox_modules (sandbox props)).
                 resolvedPath env (sandbox props) m = Some p"
      by (simp add: find_rev_None)
    then show ?thesis
      by (simp add: key_iff_map_of getModulesToSend_lookup Some)
  qed
  then show ?thesis by blast
qed

section \<open>Claims about getDiff\<close>

text \<open>
  C1. For every pair of snapshots, \<open>getDiff previous next\<close> contains exactly: every path
  of \<open>next\<close> that is absent from \<open>previous\<close> or whose code differs from the code of
  the entry of \<open>previous\<close> (a change of the binary flag alone is not included), and a
  tombstone with code \<open>None\<close> for every path of \<open>previous\<close> that is absent from
  \<open>next\<close>; no other path has an entry, and no path has two.
\<close>

theorem getDiff_contains_exactly:
  "distinct (map fst (getDiff previous next))
   \<and> map_of (getDiff previous next) = getDiff_spec (map_of previous) (map_of next)"
  by (simp add: getDiff_distinct getDiff_lookup fun_eq_iff)

text \<open>
  At \<^verbatim>\<open>/a.js\<close> only the binary flag changes, \<^verbatim>\<open>/b.js\<close> is new, \<^verbatim>\<open>/c.js\<close> has new
  code and \<^verbatim>\<open>/d.js\<close> is gone.
\<close>

theorem getDiff_contains_exactly_witness:
  "map_of (getDiff
      [(''/a.js'', \<lparr> path = ''/a.js'', code = Some ''1'', isBinary = Some False \<rparr>),
       (''/c.js'', \<lparr> path = ''/c.js'', code = Some ''3'', isBinary = Some False \<rparr>),
       (''/d.js'', \<lparr> path = ''/d.js'', code = Some ''4'', isBinary = Some False \<rparr>)]
      [(''/a.js'', \<lparr> path = ''/a.js'', code = Some ''1'', isBinary = Some True \<rparr>),
       (''/b.js'', \<lparr> path = ''/b.js'', code = Some ''x'', isBinary = None \<rparr>),
       (''/c.js'', \<lparr> path = ''/c.js'', code = Some ''5'', isBinary = Some False \<rparr>)])
   = [''/b.js'' \<mapsto> \<lparr> path = ''/b.js'', code = Some ''x'', isBinary = None \<rparr>,
      ''/c.js'' \<mapsto> \<lparr> path = ''/c.js'', code = Some ''5'', isBinary = Some False \<rparr>,
      ''/d.js'' \<mapsto> \<lparr> path = ''/d.js'', code = None, isBinary = None \<rparr>]"
  using getDiff_contains_exactly
    [of "[(''/a.js'', \<lparr> path = ''/a.js'', code = Some ''1'', isBinary = Some False \<rparr>),
          (''/c.js'', \<lparr> path = ''/c.js'', code = Some ''3'', isBinary = Some False \<rparr>),
          (''/d.js'', \<lparr> path = ''/d.js'', code = Some ''4'', isBinary = Some False \<rparr>)]"
        "[(''/a.js'', \<lparr> path = ''/a.js'', code = Some ''1'', isBinary = Some True \<rparr>),
          (''/b.js'', \<lparr> path = ''/b.js'', code = Some ''x'', isBinary = None \<rparr>),
          (''/c.js'', \<lparr> path = ''/c.js'', code = Some ''5'', isBinary = Some False \<rparr>)]"]
  by (auto simp: getDiff_spec_def fun_eq_iff)

text \<open>
  C2, as the specification states it: patching \<open>A\<close> with \<open>getDiff A B\<close> gives exactly
  the entries of \<open>B\<close> that are not deleted. This fails where \<open>A\<close> and \<open>B\<close> hold the
  same code under a path and differ in the binary flag: the path is not in the diff,
  and the patched snapshot keeps the flag of \<open>A\<close>.
\<close>

theorem applyPatch_getDiff_counterexample:
  "snapshot_of
     (applyPatch
        [(''/a.png'', \<lparr> path = ''/a.png'', code = Some ''1'', isBinary = Some False \<rparr>)]
        (getDiff
           [(''/a.png'', \<lparr> path = ''/a.png'', code = Some ''1'', isBinary = Some False \<rparr>)]
           [(''/a.png'', \<lparr> path = ''/a.png'', code = Some ''1'', isBinary = Some True \<rparr>)]))
     ''/a.png'' = Some (Some ''1'', Some False)
   \<and> snapshot_of
     (non_deleted
        [(''/a.png'', \<lparr> path = ''/a.png'', code = Some ''1'', isBinary = Some True \<rparr>)])
     ''/a.png'' = Some (Some ''1'', Some True)"
  by (simp add: snapshot_of_def non_deleted_def getDiff_same applyPatch_def getDiff_def
        Object_keys_def getDiff_filter_def getDiff_tombstone_def)

text \<open>
  C2, amended. Patching \<open>A\<close> with \<open>getDiff A B\<close> gives a snapshot that holds under
  every path the code that \<open>B\<close> holds there, a path with code \<open>None\<close> counting as
  deleted. Under a path that is new in \<open>B\<close> or whose code differs, the entry is the
  one of \<open>B\<close>; under a path with the same code in \<open>A\<close> and \<open>B\<close> the entry of \<open>A\<close>
  stays, with the binary flag of \<open>A\<close>; a path that \<open>B\<close> does not have is deleted.
\<close>

theorem applyPatch_getDiff:
  "code_at (applyPatch A (getDiff A B)) p = code_at B p
   \<and> map_of (applyPatch A (getDiff A B)) p =
       (case map_of B p of
          None \<Rightarrow> None
        | Some n \<Rightarrow>
            (case map_of A p of
               None \<Rightarrow>
                 (if code n = None then None
                  else Some \<lparr> path = p, code = code n, isBinary = isBinary n \<rparr>)
             | Some q \<Rightarrow>
                 (if code q = code n then Some q
                  else if code n = None then None
                  else Some \<lparr> path = p, code = code n, isBinary = isBinary n \<rparr>)))"
  by (auto simp: code_at_def map_of_applyPatch[OF getDiff_distinct] getDiff_lookup
        getDiff_spec_def split: option.splits)

theorem applyPatch_getDiff_witness:
  "code_at
     (applyPatch
        [(''/a.js'', \<lparr> path = ''/a.js'', code = Some ''1'', isBinary = None \<rparr>),
         (''/b.js'', \<lparr> path = ''/b.js'', code = Some ''2'', isBinary = None \<rparr>)]
        (getDiff
           [(''/a.js'', \<lparr> path = ''/a.js'', code = Some ''1'', isBinary = None \<rparr>),
            (''/b.js'', \<lparr> path = ''/b.js'', code = Some ''2'', isBinary = None \<rparr>)]
           [(''/a.js'', \<lparr> path = ''/a.js'', code = Some ''1'', isBinary = None \<rparr>)]))
     ''/b.js'' = None"
  using applyPatch_getDiff
    [of "[(''/a.js'', \<lparr> path = ''/a.js'', code = Some ''1'', isBinary = None \<rparr>),
          (''/b.js'', \<lparr> path = ''/b.js'', code = Some ''2'', isBinary = None \<rparr>)]"
        "[(''/a.js'', \<lparr> path = ''/a.js'', code = Some ''1'', isBinary = None \<rparr>)]"
        "''/b.js''"]
  by (simp add: code_at_def)

text \<open>
  C3. For every snapshot \<open>A\<close>, \<open>getDiff A A\<close> is empty. For every snapshot \<open>B\<close>, the
  diff against the empty snapshot is \<open>B\<close> in its entirety: it is the same mapping from
  paths to code and binary flag, and it is the very same object, entry for entry and in
  the same order, when \<open>B\<close> is an object as the source builds it (each key once, each
  entry carrying its key as its \<^verbatim>\<open>path\<close>).
\<close>

theorem getDiff_same_and_empty:
  "getDiff A A = []
   \<and> snapshot_of (getDiff [] B) = snapshot_of B
   \<and> (keyed_by_path B \<longrightarrow> getDiff [] B = B)"
  by (simp add: getDiff_same getDiff_empty_keyed snapshot_of_getDiff_empty fun_eq_iff)

theorem getDiff_same_and_empty_witness:
  "keyed_by_path
     [(''/a.js'', \<lparr> path = ''/a.js'', code = Some ''2'', isBinary = Some False \<rparr>),
      (''/b.js'', \<lparr> path = ''/b.js'', code = Some ''x'', isBinary = Some False \<rparr>)]
   \<and> getDiff []
     [(''/a.js'', \<lparr> path = ''/a.js'', code = Some ''2'', isBinary = Some False \<rparr>),
      (''/b.js'', \<lparr> path = ''/b.js'', code = Some ''x'', isBinary = Some False \<rparr>)]
   = [(''/a.js'', \<lparr> path = ''/a.js'', code = Some ''2'', isBinary = Some False \<rparr>),
      (''/b.js'', \<lparr> path = ''/b.js'', code = Some ''x'', isBinary = Some False \<rparr>)]
   \<and> getDiff
     [(''/a.js'', \<lparr> path = ''/a.js'', code = Some ''2'', isBinary = Some False \<rparr>)]
     [(''/a.js'', \<lparr> path = ''/a.js'', code = Some ''2'', isBinary = Some False \<rparr>)] = []"
proof -
  have k: "keyed_by_path
     [(''/a.js'', \<lparr> path = ''/a.js'', code = Some ''2'', isBinary = Some False \<rparr>),
      (''/b.js'', \<lparr> path = ''/b.js'', code = Some ''x'', isBinary = Some False \<rparr>)]"
    by (simp add: keyed_by_path_def)
  show ?thesis
    using k getDiff_same_and_empty
      [of "[(''/a.js'', \<lparr> path = ''/a.js'', code = Some ''2'', isBinary = Some False \<rparr>)]"
          "[(''/a.js'', \<lparr> path = ''/a.js'', code = Some ''2'', isBinary = Some False \<rparr>),
            (''/b.js'', \<lparr> path = ''/b.js'', code = Some ''x'', isBinary = Some False \<rparr>)]"]
    by simp
qed

section \<open>Claims about the navigation history\<close>

text \<open>
  C4, as the specification states it: after \<open>N\<close> PUSH actions from a freshly reset
  history the position is \<open>N - 1\<close> and there are \<open>N\<close> entries, and a PUSH drops the
  entries after the position in every state. After one PUSH from a refreshed history
  the position is 1 and there are 2 entries, not 0 and 1; from the state of the
  constructor the position is 1 as well. At the position \<open>- 2\<close>, reached by a POP, a PUSH
  keeps two of three entries although all of them lie after the position.
\<close>

theorem commitUrl_PUSH_counterexample:
  "historyPosition (pushes [''/a''] (handleRefresh (initialState ''/''))) = 1
   \<and> length (history (pushes [''/a''] (handleRefresh (initialState ''/'')))) = 2
   \<and> historyPosition (pushes [''/a''] (initialState ''/'')) = 1
   \<and> length (history (pushes [''/a''] (initialState ''/''))) = 1
   \<and> historyPosition
       (commits [Commit ''/b'' ''PUSH'' 0, Commit ''/c'' ''PUSH'' 0, Commit ''/x'' ''POP'' (- 4)]
          (handleRefresh (initialState ''/a''))) = - 2
   \<and> history
       (commits [Commit ''/b'' ''PUSH'' 0, Commit ''/c'' ''PUSH'' 0, Commit ''/x'' ''POP'' (- 4),
                 Commit ''/u'' ''PUSH'' 0]
          (handleRefresh (initialState ''/a''))) = [''/a'', ''/b'', ''/u'']"
  by (simp add: pushes_def commits_def commitUrl_def handleRefresh_def handleRefresh_url_def
        initialState_def array_get_def slice_def slice_index_def)

text \<open>
  C4, amended. In every state a PUSH with url \<open>u\<close> sets the entries to
  \<^verbatim>\<open>history.slice(0, historyPosition + 1)\<close> followed by \<open>u\<close>, advances the position by 1
  and shows \<open>u\<close> in the address bar; when the position is at least \<open>- 1\<close> the slice is
  the entries up to and including the position, so the entries after it are dropped.
  Consequently, after \<open>N\<close> PUSH actions from a freshly reset history (the single entry
  that \<open>handleRefresh\<close> leaves, at position 0) the position is \<open>N\<close> and there are
  \<open>N + 1\<close> entries; from the state of the constructor (no entry, position 0) the
  position is \<open>N\<close> and there are \<open>N\<close> entries.
\<close>

theorem commitUrl_PUSH_pushes:
  "historyPosition (commitUrl u ''PUSH'' d s) = historyPosition s + 1
   \<and> urlInAddressBar (commitUrl u ''PUSH'' d s) = u
   \<and> history (commitUrl u ''PUSH'' d s) = slice (history s) 0 (historyPosition s + 1) @ [u]
   \<and> (- 1 \<le> historyPosition s \<longrightarrow>
        history (commitUrl u ''PUSH'' d s) = take (nat (historyPosition s + 1)) (history s) @ [u])
   \<and> history (pushes us (handleRefresh s)) = handleRefresh_url s # us
   \<and> historyPosition (pushes us (handleRefresh s)) = int (length us)
   \<and> length (history (pushes us (handleRefresh s))) = length us + 1
   \<and> history (pushes us (initialState address)) = us
   \<and> historyPosition (pushes us (initialState address)) = int (length us)"
proof -
  have r: "int (length (history (handleRefresh s))) \<le> historyPosition (handleRefresh s) + 1"
    by (simp add: handleRefresh_def)
  have i: "int (length (history (initialState address)))
             \<le> historyPosition (initialState address) + 1"
    by (simp add: initialState_def)
  have hr: "history (handleRefresh s) = [handleRefresh_url s]"
    "historyPosition (handleRefresh s) = 0"
    by (simp_all add: handleRefresh_def)
  have hi: "history (initialState address) = []" "historyPosition (initialState address) = 0"
    by (simp_all add: initialState_def)
  show ?thesis
    using pushes_full[OF r, of us] pushes_full[OF i, of us]
    by (simp add: commitUrl_PUSH slice_0_take hr hi)
qed

theorem commitUrl_PUSH_pushes_witness:
  "(- 1 :: int) \<le> historyPosition (handleRefresh (initialState ''/''))
   \<and> history (commitUrl ''/a'' ''PUSH'' 0 (handleRefresh (initialState ''/''))) = [''/'', ''/a'']
   \<and> historyPosition (pushes [''/a'', ''/b'', ''/c''] (handleRefresh (initialState ''/''))) = 3
   \<and> history (pushes [''/a'', ''/b'', ''/c''] (handleRefresh (initialState ''/'')))
       = [''/'', ''/a'', ''/b'', ''/c'']"
  using commitUrl_PUSH_pushes
    [of "''/a''" 0 "handleRefresh (initialState ''/'')" "[''/a'', ''/b'', ''/c'']" "''/''"]
  by (simp add: pushes_def commitUrl_PUSH handleRefresh_def handleRefresh_url_def
        initialState_def array_get_def slice_def slice_index_def)

text \<open>
  C5, as the specification states it, with the empty sequence included: REPLACE leaves
  the number of entries unchanged. In the state of the constructor, which has no
  entry, REPLACE makes the url the first entry.
\<close>

theorem commitUrl_REPLACE_counterexample:
  "length (history (initialState ''/'')) = 0
   \<and> history (commitUrl ''/a'' ''REPLACE'' 0 (initialState ''/'')) = [''/a'']
   \<and> length (history (commitUrl ''/a'' ''REPLACE'' 0 (initialState ''/''))) = 1"
  by (simp add: commitUrl_def initialState_def slice_def slice_from_def slice_index_def)

text \<open>
  C5, amended. In every state REPLACE leaves the position unchanged and shows the url
  in the address bar. In every state whose position is an index of the entries
  (\<open>0 \<le> position < length\<close>) it overwrites the entry at the position with the url
  and leaves the number of entries unchanged. When there is no entry, the url becomes
  the only entry.
\<close>

theorem commitUrl_REPLACE_frame:
  "historyPosition (commitUrl u ''REPLACE'' d s) = historyPosition s
   \<and> urlInAddressBar (commitUrl u ''REPLACE'' d s) = u
   \<and> (0 \<le> historyPosition s \<and> historyPosition s < int (length (history s)) \<longrightarrow>
        history (commitUrl u ''REPLACE'' d s) = (history s)[nat (historyPosition s) := u]
        \<and> length (history (commitUrl u ''REPLACE'' d s)) = length (history s))
   \<and> (history s = [] \<longrightarrow> history (commitUrl u ''REPLACE'' d s) = [u])"
proof -
  have "history s = [] \<Longrightarrow> history (commitUrl u ''REPLACE'' d s) = [u]"
    by (simp add: commitUrl_REPLACE slice_def slice_from_def)
  then show ?thesis
    by (simp add: replace_history) (simp add: commitUrl_REPLACE)
qed

theorem commitUrl_REPLACE_frame_witness:
  "(0 :: int) \<le> historyPosition (pushes [''/a'', ''/b''] (handleRefresh (initialState ''/'')))
   \<and> historyPosition (pushes [''/a'', ''/b''] (handleRefresh (initialState ''/'')))
       < int (length (history (pushes [''/a'', ''/b''] (handleRefresh (initialState ''/'')))))
   \<and> history (commitUrl ''/r'' ''REPLACE'' 0
        (commitUrl ''/'' ''POP'' (- 1) (pushes [''/a'', ''/b''] (handleRefresh (initialState ''/'')))))
       = [''/'', ''/r'', ''/b'']
   \<and> history (commitUrl ''/r'' ''REPLACE'' 0 (initialState ''/'')) = [''/r'']"
  using commitUrl_REPLACE_frame
    [of "''/r''" 0
        "commitUrl ''/'' ''POP'' (- 1) (pushes [''/a'', ''/b''] (handleRefresh (initialState ''/'')))"]
    commitUrl_REPLACE_frame [of "''/r''" 0 "initialState ''/''"]
  by (simp add: pushes_def commitUrl_PUSH commitUrl_POP handleRefresh_def handleRefresh_url_def
        initialState_def array_get_def slice_def slice_index_def)

text \<open>
  C6. In every state and for every integer delta, a POP adds the delta to the position
  and stores the url it carries as the address-bar value; nothing else changes, the
  entries in particular. A POP with delta \<open>- 2\<close> at position 3 gives position 1 and
  the same entries.
\<close>

theorem commitUrl_POP_frame:
  "commitUrl u ''POP'' d s = s\<lparr> historyPosition := historyPosition s + d, urlInAddressBar := u \<rparr>
   \<and> historyPosition (commitUrl u ''POP'' d s) = historyPosition s + d
   \<and> urlInAddressBar (commitUrl u ''POP'' d s) = u
   \<and> history (commitUrl u ''POP'' d s) = history s
   \<and> historyPosition (commitUrl u ''POP'' (- 2) (s\<lparr> historyPosition := 3 \<rparr>)) = 1
   \<and> history (commitUrl u ''POP'' (- 2) (s\<lparr> historyPosition := 3 \<rparr>)) = history s"
  by (simp add: commitUrl_POP)

theorem commitUrl_POP_frame_witness:
  "historyPosition (pushes [''/a'', ''/b'', ''/c''] (handleRefresh (initialState ''/''))) = 3
   \<and> historyPosition
       (commitUrl ''/a'' ''POP'' (- 2)
          (pushes [''/a'', ''/b'', ''/c''] (handleRefresh (initialState ''/'')))) = 1
   \<and> history
       (commitUrl ''/a'' ''POP'' (- 2)
          (pushes [''/a'', ''/b'', ''/c''] (handleRefresh (initialState ''/''))))
       = [''/'', ''/a'', ''/b'', ''/c'']"
  using commitUrl_POP_frame
    [of "''/a''" "- 2" "pushes [''/a'', ''/b'', ''/c''] (handleRefresh (initialState ''/''))"]
  by (simp add: pushes_def commitUrl_PUSH handleRefresh_def handleRefresh_url_def
        initialState_def array_get_def slice_def slice_index_def)

text \<open>
  C7, as the specification states it: the invariant holds in every state reached from
  the initial state. It fails after the first PUSH in the state of the constructor
  (one entry, position 1), after a POP that leaves the entries (position \<open>- 1\<close>), and
  after a POP inside the entries whose url is not the entry at the new position.
\<close>

theorem history_invariant_counterexample:
  "\<not> history_invariant (commits [Commit ''/a'' ''PUSH'' 0] (initialState ''/''))
   \<and> \<not> history_invariant (commits [Refresh, Commit ''/x'' ''POP'' (- 1)] (initialState ''/''))
   \<and> \<not> history_invariant
         (commits [Refresh, Commit ''/a'' ''PUSH'' 0, Commit ''/#top'' ''POP'' (- 1)]
            (initialState ''/''))"
  by (simp add: history_invariant_def position_valid_def commits_def commitUrl_def
        handleRefresh_def handleRefresh_url_def initialState_def array_get_def slice_def
        slice_index_def)

text \<open>
  C7, amended. After a refresh, in every state reached by PUSH, REPLACE and refresh
  transitions and by POP transitions that lead to an index of the entries and carry
  the url stored at that index, the entries are not empty, \<open>0 \<le> position < length\<close>
  holds and the address bar shows the entry at the position.
\<close>

theorem history_invariant_after_refresh:
  assumes "all_in_range ts (handleRefresh s)"
  shows "history (commits ts (handleRefresh s)) \<noteq> []
    \<and> 0 \<le> historyPosition (commits ts (handleRefresh s))
    \<and> historyPosition (commits ts (handleRefresh s))
        < int (length (history (commits ts (handleRefresh s))))
    \<and> urlInAddressBar (commits ts (handleRefresh s))
        = history (commits ts (handleRefresh s)) ! nat (historyPosition (commits ts (handleRefresh s)))
    \<and> history_invariant (commits ts (handleRefresh s))"
proof -
  have v: "position_valid (commits ts (handleRefresh s))"
    using handleRefresh_valid assms by (rule commits_valid)
  then have "0 \<le> historyPosition (commits ts (handleRefresh s))"
    and "historyPosition (commits ts (handleRefresh s))
          < int (length (history (commits ts (handleRefresh s))))"
    and "array_get (history (commits ts (handleRefresh s)))
           (historyPosition (commits ts (handleRefresh s)))
         = Some (urlInAddressBar (commits ts (handleRefresh s)))"
    by (simp_all add: position_valid_def)
  then show ?thesis
    using v by (auto simp: history_invariant_def array_get_def)
qed

theorem history_invariant_after_refresh_witness:
  "all_in_range
     [Commit ''/a'' ''PUSH'' 0, Commit ''/b'' ''PUSH'' 0, Commit ''/a'' ''POP'' (- 1),
      Commit ''/r'' ''REPLACE'' 0, Refresh, Commit ''/c'' ''PUSH'' 0]
     (handleRefresh (initialState ''/''))
   \<and> history_invariant
     (commits
        [Commit ''/a'' ''PUSH'' 0, Commit ''/b'' ''PUSH'' 0, Commit ''/a'' ''POP'' (- 1),
         Commit ''/r'' ''REPLACE'' 0, Refresh, Commit ''/c'' ''PUSH'' 0]
        (handleRefresh (initialState ''/'')))"
proof -
  have a: "all_in_range
     [Commit ''/a'' ''PUSH'' 0, Commit ''/b'' ''PUSH'' 0, Commit ''/a'' ''POP'' (- 1),
      Commit ''/r'' ''REPLACE'' 0, Refresh, Commit ''/c'' ''PUSH'' 0]
     (handleRefresh (initialState ''/''))"
    by (simp add: commitUrl_def handleRefresh_def handleRefresh_url_def initialState_def
          array_get_def slice_def slice_from_def slice_index_def)
  show ?thesis
    using a history_invariant_after_refresh[OF a] by simp
qed

section \<open>Claims about the controller\<close>

text \<open>
  C8, as the specification states it: in server mode the baseline is replaced by the
  current snapshot exactly when the container reports \<^verbatim>\<open>sandbox-started\<close> at the
  moment of the request. With the \<^verbatim>\<open>forceRefresh\<close> setting, a request that is not the
  initial render only refreshes the frame: the container reports \<^verbatim>\<open>sandbox-started\<close>,
  the current snapshot has three entries, and the baseline stays empty.
\<close>

theorem executeCodeImmediately_counterexample:
  "serverPreview (preview0 True)
   \<and> containerStatus (props0 True) = Some ''sandbox-started''
   \<and> getModulesToSend env0 (props0 True) =
       [(''/index.js'', \<lparr> path = ''/index.js'', code = Some ''main'', isBinary = Some False \<rparr>),
        (''/extra.js'', \<lparr> path = ''/extra.js'', code = Some ''more'', isBinary = None \<rparr>),
        (''/package.json'', \<lparr> path = ''/package.json'', code = Some ''{}'', isBinary = Some False \<rparr>)]
   \<and> modules (lastSent (fst (executeCodeImmediately env0 (props0 True) False (preview0 True)))) = []
   \<and> snd (executeCodeImmediately env0 (props0 True) False (preview0 True)) =
       [Dispatch Error_clear, Set_frame_src ''https://sb.sse.codesandbox.io'']"
  by (simp add: executeCodeImmediately_def getModulesToSend_def spread_def assign_def
        addModule_def Object_keys_def clearErrors_def handleRefresh_src_def handleRefresh_url_def
        array_get_def initialState_def env0_def props0_def sandbox0_def preview0_def Let_def)

text \<open>
  C8, amended. In server mode an execution request emits a \<^verbatim>\<open>sandbox:update\<close> message,
  carrying the diff against the last-sent baseline, only when the diff is not empty
  (and the request is not turned into a refresh by \<^verbatim>\<open>forceRefresh\<close>, and the socket
  exists); it emits nothing else on the socket. The baseline is replaced by the current
  snapshot exactly when the request is not turned into a refresh (\<^verbatim>\<open>forceRefresh\<close> is off
  or the request is the initial render) and the container reports
  \<^verbatim>\<open>sandbox-started\<close> at the moment of the request; otherwise it is left as it is.
\<close>

theorem executeCodeImmediately_server:
  assumes "serverPreview c"
  shows "filter is_socket_emit (snd (executeCodeImmediately env props initialRender c)) =
       (if \<not> (forceRefresh (settings props) \<and> \<not> initialRender)
           \<and> getDiff (modules (lastSent c)) (getModulesToSend env props) \<noteq> [] \<and> socket c
        then [Socket_emit ''sandbox:update''
                (Updates (getDiff (modules (lastSent c)) (getModulesToSend env props)))]
        else [])
     \<and> lastSent (fst (executeCodeImmediately env props initialRender c)) =
       (if \<not> (forceRefresh (settings props) \<and> \<not> initialRender)
           \<and> containerStatus props = Some ''sandbox-started''
        then (lastSent c)\<lparr> modules := getModulesToSend env props \<rparr>
        else lastSent c)"
  using server_request_effects[OF assms]
    server_request_lastSent[OF assms]
  by simp

theorem executeCodeImmediately_server_witness:
  "serverPreview (preview0 True)
   \<and> filter is_socket_emit (snd (executeCodeImmediately env0 (props0 False) False (preview0 True))) =
       [Socket_emit ''sandbox:update''
          (Updates
             [(''/index.js'', \<lparr> path = ''/index.js'', code = Some ''main'', isBinary = Some False \<rparr>),
              (''/extra.js'', \<lparr> path = ''/extra.js'', code = Some ''more'', isBinary = None \<rparr>),
              (''/package.json'',
               \<lparr> path = ''/package.json'', code = Some ''{}'', isBinary = Some False \<rparr>)])]
   \<and> modules (lastSent (fst (executeCodeImmediately env0 (props0 False) False (preview0 True)))) =
       [(''/index.js'', \<lparr> path = ''/index.js'', code = Some ''main'', isBinary = Some False \<rparr>),
        (''/extra.js'', \<lparr> path = ''/extra.js'', code = Some ''more'', isBinary = None \<rparr>),
        (''/package.json'', \<lparr> path = ''/package.json'', code = Some ''{}'', isBinary = Some False \<rparr>)]"
proof -
  have s: "serverPreview (preview0 True)"
    by (simp add: preview0_def)
  have m: "getModulesToSend env0 (props0 False) =
       [(''/index.js'', \<lparr> path = ''/index.js'', code = Some ''main'', isBinary = Some False \<rparr>),
        (''/extra.js'', \<lparr> path = ''/extra.js'', code = Some ''more'', isBinary = None \<rparr>),
        (''/package.json'', \<lparr> path = ''/package.json'', code = Some ''{}'', isBinary = Some False \<rparr>)]"
    by (simp add: getModulesToSend_def spread_def assign_def addModule_def Object_keys_def
          env0_def props0_def sandbox0_def Let_def)
  have p: "\<not> forceRefresh (settings (props0 False))"
    "containerStatus (props0 False) = Some ''sandbox-started''"
    by (simp_all add: props0_def)
  have c: "modules (lastSent (preview0 True)) = []" "socket (preview0 True)"
    by (simp_all add: preview0_def)
  have d: "getDiff []
       [(''/index.js'', \<lparr> path = ''/index.js'', code = Some ''main'', isBinary = Some False \<rparr>),
        (''/extra.js'', \<lparr> path = ''/extra.js'', code = Some ''more'', isBinary = None \<rparr>),
        (''/package.json'', \<lparr> path = ''/package.json'', code = Some ''{}'', isBinary = Some False \<rparr>)]
     = [(''/index.js'', \<lparr> path = ''/index.js'', code = Some ''main'', isBinary = Some False \<rparr>),
        (''/extra.js'', \<lparr> path = ''/extra.js'', code = Some ''more'', isBinary = None \<rparr>),
        (''/package.json'', \<lparr> path = ''/package.json'', code = Some ''{}'', isBinary = Some False \<rparr>)]"
    by (simp add: getDiff_def Object_keys_def getDiff_filter_def getDiff_put_def)
  show ?thesis
    using s executeCodeImmediately_server[OF s, of env0 "props0 False" False]
    by (simp add: m p c d)
qed

text \<open>
  C9, as the specification states it: a send while the channel is not there is reported
  to the caller as an error and not dropped silently. An embedded preview has no socket;
  a \<^verbatim>\<open>socket:message\<close> from its frame makes the handler return with the instance as it
  was and with no effect at all: nothing is emitted and nothing is reported.
\<close>

theorem handleMessage_counterexample:
  "socket (preview0 False) = False
   \<and> handleMessage env0 (props0 False)
       (Some \<lparr> codesandbox = True, envelope = Socket_message ''shell:in'' [(''data'', ''ls'')] \<rparr>)
       True (preview0 False)
     = (preview0 False, [])"
  by (simp add: handleMessage_def preview0_def)

text \<open>
  C9, amended. While \<^verbatim>\<open>this.$socket\<close> is not set, a send to the socket is dropped
  silently and no exception escapes: a \<^verbatim>\<open>socket:message\<close> from the frame leaves the
  instance as it was and has no effect, and an execution request of a server preview
  emits nothing on the socket and raises nothing. No error is reported to the caller.
\<close>

theorem send_without_socket:
  assumes "\<not> socket c"
  shows "(codesandbox d \<and> envelope d = Socket_message channel message \<longrightarrow>
            handleMessage env props (Some d) source c = (c, []))
     \<and> (serverPreview c \<longrightarrow>
            filter is_socket_emit (snd (executeCodeImmediately env props initialRender c)) = []
            \<and> filter is_throws (snd (executeCodeImmediately env props initialRender c)) = [])"
  using assms
  by (simp add: handleMessage_socket_message server_request_effects
        server_request_no_throw)

theorem send_without_socket_witness:
  "\<not> socket ((preview0 True)\<lparr> socket := False \<rparr>)
   \<and> codesandbox \<lparr> codesandbox = True, envelope = Socket_message ''shell:in'' [(''data'', ''ls'')] \<rparr>
   \<and> serverPreview ((preview0 True)\<lparr> socket := False \<rparr>)
   \<and> handleMessage env0 (props0 False)
       (Some \<lparr> codesandbox = True, envelope = Socket_message ''shell:in'' [(''data'', ''ls'')] \<rparr>)
       True ((preview0 True)\<lparr> socket := False \<rparr>)
     = ((preview0 True)\<lparr> socket := False \<rparr>, [])
   \<and> filter is_socket_emit
       (snd (executeCodeImmediately env0 (props0 False) False ((preview0 True)\<lparr> socket := False \<rparr>)))
     = []"
proof -
  have n: "\<not> socket ((preview0 True)\<lparr> socket := False \<rparr>)"
    by simp
  have s: "serverPreview ((preview0 True)\<lparr> socket := False \<rparr>)"
    by (simp add: preview0_def)
  show ?thesis
    using s send_without_socket
      [OF n, of "\<lparr> codesandbox = True, envelope = Socket_message ''shell:in'' [(''data'', ''ls'')] \<rparr>"
         "''shell:in''" "[(''data'', ''ls'')]" env0 "props0 False" True False]
    by simp
qed

text \<open>
  C10. The snapshot to send holds under a path to which a sandbox module resolves the
  entry of that module (of the last such module), whatever the extra modules hold under
  that path; only under other paths it holds the entry of the extra modules, or the
  generated manifest under \<^verbatim>\<open>/package.json\<close>. A module that the resolver does not find has
  no resolved path and adds no path: the paths of the snapshot are the resolved paths of
  the modules, the paths of the extra modules and \<^verbatim>\<open>/package.json\<close>.
\<close>

theorem getModulesToSend_entries:
  "map_of (getModulesToSend env props) p =
     (case find (\<lambda>m. resolvedPath env (sandbox props) m = Some p)
             (rev (sandbox_modules (sandbox props))) of
        Some m \<Rightarrow> Some \<lparr> path = p, code = module_code m, isBinary = module_isBinary m \<rparr>
      | None \<Rightarrow>
          (case map_of (case extraModules props of None \<Rightarrow> [] | Some x \<Rightarrow> x) p of
             Some e \<Rightarrow> Some e
           | None \<Rightarrow>
               (if p = ''/package.json''
                then Some \<lparr> path = ''/package.json'',
                            code = Some (generateFileFromSandbox env (sandbox props)),
                            isBinary = Some False \<rparr>
                else None)))
   \<and> set (Object_keys (getModulesToSend env props)) =
       {p. \<exists>m \<in> set (sandbox_modules (sandbox props)). resolvedPath env (sandbox props) m = Some p}
       \<union> set (Object_keys (case extraModules props of None \<Rightarrow> [] | Some x \<Rightarrow> x))
       \<union> {''/package.json''}
   \<and> (getModulePath env (sandbox_modules (sandbox props)) (sandbox_directories (sandbox props))
         (module_id m) = None \<longrightarrow> resolvedPath env (sandbox props) m = None)"
  by (simp add: getModulesToSend_lookup keys_getModulesToSend resolvedPath_def)

theorem getModulesToSend_entries_witness:
  "getModulePath env0 (sandbox_modules sandbox0) (sandbox_directories sandbox0) ''2'' = None
   \<and> map_of (getModulesToSend env0 (props0 False)) ''/index.js''
       = Some \<lparr> path = ''/index.js'', code = Some ''main'', isBinary = Some False \<rparr>
   \<and> map_of (case extraModules (props0 False) of None \<Rightarrow> [] | Some x \<Rightarrow> x) ''/index.js''
       = Some \<lparr> path = ''/index.js'', code = Some ''extra'', isBinary = None \<rparr>
   \<and> set (Object_keys (getModulesToSend env0 (props0 False)))
       = {''/index.js'', ''/extra.js'', ''/package.json''}"
  using getModulesToSend_entries [of env0 "props0 False" "''/index.js''"
      "\<lparr> module_id = ''2'', module_code = Some ''orphan'', module_isBinary = Some False \<rparr>"]
  by (auto simp: resolvedPath_def Object_keys_def env0_def props0_def sandbox0_def)

end
